theory Spec2Isabelle
  imports Main "HOL-Library.Sublist" "HOL-Library.AList"
begin

section \<open>Python strings, lists and faults\<close>

text \<open>
  The script works on Python \<open>str\<close> values. A string is modelled as a \<open>char list\<close>
  whose characters are the code points 0..255. Python's notion of whitespace
  (\<open>str.isspace\<close>, used by \<open>strip()\<close> and \<open>split()\<close>, and the class \<open>\s\<close> of \<open>re\<close>)
  restricted to that range is: TAB..CR (9..13), FS..US (28..31), SPACE (32),
  NEL (133) and NBSP (160).
\<close>

definition py_isspace :: "char \<Rightarrow> bool" where
  "py_isspace c =
     (let n = (of_char c :: nat)
      in (9 \<le> n \<and> n \<le> 13) \<or> (28 \<le> n \<and> n \<le> 32) \<or> n = 133 \<or> n = 160)"

text \<open>The regular-expression class \<open>\S\<close>: any character that is not whitespace.\<close>

definition nonspace :: "char \<Rightarrow> bool" where
  "nonspace c = (\<not> py_isspace c)"

text \<open>The class \<open>\d\<close>: in the range 0..255 only the ASCII digits are decimal digits.\<close>

definition py_isdigit :: "char \<Rightarrow> bool" where
  "py_isdigit c = (let n = (of_char c :: nat) in 48 \<le> n \<and> n \<le> 57)"

text \<open>\<open>s.strip()\<close>: whitespace removed at both ends.\<close>

definition py_strip :: "string \<Rightarrow> string" where
  "py_strip s = rev (dropWhile py_isspace (rev (dropWhile py_isspace s)))"

text \<open>\<open>s.split()\<close>: the maximal runs of non-whitespace characters, in order.\<close>

function py_split :: "string \<Rightarrow> string list" where
  "py_split s =
     (case dropWhile py_isspace s of
        [] \<Rightarrow> []
      | c # cs \<Rightarrow> (c # takeWhile nonspace cs) # py_split (dropWhile nonspace cs))"
  by pat_completeness auto
termination
proof (relation "measure length")
  show "wf (measure length)" by simp
next
  fix s :: string and c cs
  assume h: "dropWhile py_isspace s = c # cs"
  have "length (dropWhile nonspace cs) \<le> length cs"
    by (rule length_dropWhile_le)
  moreover have "length (c # cs) \<le> length s"
    using length_dropWhile_le [of py_isspace s] h by simp
  ultimately show "(dropWhile nonspace cs, s) \<in> measure length" by simp
qed

text \<open>\<open>s.startswith(p)\<close> is \<open>prefix p s\<close>. \<open>p in s\<close> on strings is substring containment.\<close>

fun py_contains :: "string \<Rightarrow> string \<Rightarrow> bool" where
  "py_contains p [] = (p = [])"
| "py_contains p (c # cs) = (prefix p (c # cs) \<or> py_contains p cs)"

text \<open>The only exception the recognizers can raise is \<open>IndexError\<close>, from list indexing.\<close>

datatype error = IndexError

text \<open>\<open>str(e)\<close> for the exception raised by an out-of-range list index.\<close>

fun error_message :: "error \<Rightarrow> string" where
  "error_message IndexError = ''list index out of range''"

text \<open>\<open>xs[i]\<close> for a non-negative index \<open>i\<close>.\<close>

definition py_index :: "'a list \<Rightarrow> nat \<Rightarrow> error + 'a" where
  "py_index xs i = (if i < length xs then Inr (xs ! i) else Inl IndexError)"

text \<open>\<open>xs[-k]\<close> for a positive \<open>k\<close>: the \<open>k\<close>-th element from the end.\<close>

definition py_index_neg :: "'a list \<Rightarrow> nat \<Rightarrow> error + 'a" where
  "py_index_neg xs k =
     (if 0 < k \<and> k \<le> length xs then Inr (xs ! (length xs - k)) else Inl IndexError)"

section \<open>Route recognizer\<close>

record route_record =
  interface :: string
  destination :: string
  netmask :: string
  gateway :: string
  metric :: string

text \<open>
  One \<open>(\S+)\<close> followed by a literal space. The group is greedy and cannot contain
  whitespace, so it is the maximal run of non-whitespace characters; the character
  after that run has to be the space itself, no shorter run can be followed by one.
\<close>

definition group_then_space :: "string \<Rightarrow> (string \<times> string) option" where
  "group_then_space s =
     (let g = takeWhile nonspace s; rest = dropWhile nonspace s
      in if g \<noteq> [] \<and> prefix '' '' rest then Some (g, drop 1 rest) else None)"

text \<open>
  \<open>re.compile(r'^route (\S+) (\S+) (\S+) (\S+)(?: (\d+))?').match(s)\<close>: the five
  groups, the fifth \<open>None\<close> when the optional part does not match. The fourth group
  is the maximal run as well: the optional part may match empty, so the first
  (longest) attempt for the group already succeeds.
\<close>

definition route_match ::
  "string \<Rightarrow> (string \<times> string \<times> string \<times> string \<times> string option) option" where
  "route_match s =
     (if \<not> prefix ''route '' s then None
      else case group_then_space (drop 6 s) of
        None \<Rightarrow> None
      | Some (g1, s1) \<Rightarrow>
         (case group_then_space s1 of
            None \<Rightarrow> None
          | Some (g2, s2) \<Rightarrow>
             (case group_then_space s2 of
                None \<Rightarrow> None
              | Some (g3, s3) \<Rightarrow>
                 (let g4 = takeWhile nonspace s3; s4 = dropWhile nonspace s3
                  in if g4 = [] then None
                     else if prefix '' '' s4 \<and> takeWhile py_isdigit (drop 1 s4) \<noteq> []
                       then Some (g1, g2, g3, g4, Some (takeWhile py_isdigit (drop 1 s4)))
                       else Some (g1, g2, g3, g4, None)))))"

text \<open>One iteration of the loop of \<open>parse_routes\<close>.\<close>

definition route_step :: "route_record list \<Rightarrow> string \<Rightarrow> route_record list" where
  "route_step route_entries line =
     (case route_match (py_strip line) of
        None \<Rightarrow> route_entries
      | Some (g1, g2, g3, g4, g5) \<Rightarrow>
          route_entries @
            [\<lparr>interface = g1, destination = g2, netmask = g3, gateway = g4,
              metric = (case g5 of Some m \<Rightarrow> m | None \<Rightarrow> [])\<rparr>])"

definition parse_routes :: "string list \<Rightarrow> route_record list" where
  "parse_routes config_lines = foldl route_step [] config_lines"

section \<open>Object-NAT recognizer\<close>

text \<open>
  \<open>s.split(sep)\<close> for a non-empty separator: the pieces between the non-overlapping
  occurrences of \<open>sep\<close>, found from left to right. \<open>acc\<close> holds the characters of
  the current piece, last one first.
\<close>

function py_split_sep :: "string \<Rightarrow> string \<Rightarrow> string \<Rightarrow> string list" where
  "py_split_sep sep acc s =
     (if sep \<noteq> [] \<and> prefix sep s
        then rev acc # py_split_sep sep [] (drop (length sep) s)
      else case s of
             [] \<Rightarrow> [rev acc]
           | c # cs \<Rightarrow> py_split_sep sep (c # acc) cs)"
  by pat_completeness auto
termination
  by (relation "measure (\<lambda>(sep, acc, s). length s)") (auto simp: prefix_def)

text \<open>
  The dict appended by \<open>parse_object_nat\<close>; its key \<open>raw\<close> is the field \<open>nat_raw\<close>,
  the name \<open>raw\<close> being kept for the ACL record.
\<close>

record nat_record =
  object_name :: string
  source_interface :: string
  destination_interface :: string
  nat_type :: string
  translated_object :: string
  nat_raw :: string

text \<open>
  Splitting \<open>u\<close> as \<open>g1 , g2\<close> with both parts non-empty and \<open>g1\<close> as long as
  possible: the comma is looked for from index \<open>i\<close> downwards, index 0 excluded.
\<close>

fun last_comma :: "string \<Rightarrow> nat \<Rightarrow> (string \<times> string) option" where
  "last_comma u 0 = None"
| "last_comma u (Suc i) =
     (if Suc i < length u \<and> u ! Suc i = CHR '','' then Some (take (Suc i) u, drop (Suc (Suc i)) u)
      else last_comma u i)"

text \<open>
  \<open>re.match(r'nat \((\S+),(\S+)\) static (\S+)', s)\<close>. The two first groups, the
  comma and the closing parenthesis contain no whitespace and are followed by a
  space, so together they are the maximal run \<open>w\<close> of non-whitespace characters
  after \<open>nat (\<close>, and the parenthesis is its last character. The first group is
  greedy: it ends at the last comma that leaves a non-empty second group. The third
  group is the maximal run after \<open>static\<close> and its space.
\<close>

definition nat_match :: "string \<Rightarrow> (string \<times> string \<times> string) option" where
  "nat_match s =
     (if \<not> prefix ''nat ('' s then None
      else let w = takeWhile nonspace (drop 5 s);
               rest = dropWhile nonspace (drop 5 s);
               g3 = takeWhile nonspace (drop 8 rest)
           in if w \<noteq> [] \<and> last w = CHR '')'' \<and> prefix '' static '' rest \<and> g3 \<noteq> []
                then (case last_comma (butlast w) (length (butlast w) - 2) of
                        None \<Rightarrow> None
                      | Some (g1, g2) \<Rightarrow> Some (g1, g2, g3))
                else None)"

text \<open>Truth value of \<open>current_object\<close>: \<open>None\<close> and the empty string are false.\<close>

fun truthy :: "string option \<Rightarrow> bool" where
  "truthy None = False"
| "truthy (Some s) = (s \<noteq> [])"

text \<open>\<open>line.split("object network")[1].strip()\<close>\<close>

definition declared_object :: "string \<Rightarrow> error + string" where
  "declared_object line =
     (case py_index (py_split_sep ''object network'' [] line) 1 of
        Inl e \<Rightarrow> Inl e
      | Inr name \<Rightarrow> Inr (py_strip name))"

text \<open>
  One iteration of the loop of \<open>parse_object_nat\<close>, on the pair of \<open>nat_entries\<close>
  and \<open>current_object\<close>.
\<close>

definition nat_step ::
  "nat_record list \<times> string option \<Rightarrow> string \<Rightarrow> error + nat_record list \<times> string option" where
  "nat_step st line0 =
     (case st of (nat_entries, current_object) \<Rightarrow>
        let line = py_strip line0 in
        if prefix ''object network'' line then
          (case declared_object line of
             Inl e \<Rightarrow> Inl e
           | Inr name \<Rightarrow> Inr (nat_entries, Some name))
        else if prefix ''nat ('' line \<and> truthy current_object then
          (case nat_match line of
             Some (g1, g2, g3) \<Rightarrow>
               Inr (nat_entries @
                      [\<lparr>object_name = the current_object, source_interface = g1,
                        destination_interface = g2, nat_type = ''static'',
                        translated_object = g3, nat_raw = line\<rparr>], None)
           | None \<Rightarrow> Inr (nat_entries, None))
        else Inr (nat_entries, current_object))"

fun nat_loop ::
  "nat_record list \<times> string option \<Rightarrow> string list \<Rightarrow> error + nat_record list \<times> string option" where
  "nat_loop st [] = Inr st"
| "nat_loop st (line # rest) =
     (case nat_step st line of Inl e \<Rightarrow> Inl e | Inr st' \<Rightarrow> nat_loop st' rest)"

definition parse_object_nat :: "string list \<Rightarrow> error + nat_record list" where
  "parse_object_nat config_lines =
     (case nat_loop ([], None) config_lines of
        Inl e \<Rightarrow> Inl e
      | Inr (nat_entries, current_object) \<Rightarrow> Inr nat_entries)"

text \<open>
  A line that is neither an object declaration nor a line beginning with \<open>nat (\<close>:
  the loop leaves both \<open>nat_entries\<close> and \<open>current_object\<close> alone on it.
\<close>

definition neutral_line :: "string \<Rightarrow> bool" where
  "neutral_line line =
     (\<not> prefix ''object network'' (py_strip line) \<and> \<not> prefix ''nat ('' (py_strip line))"

text \<open>A line that is not an object declaration.\<close>

definition not_object_line :: "string \<Rightarrow> bool" where
  "not_object_line line = (\<not> prefix ''object network'' (py_strip line))"

section \<open>Interface block recognizer\<close>

text \<open>
  An interface record is a Python dict built key by key, and the empty dict stands
  for "no current record": it is modelled as an association list in insertion
  order, \<open>d[k] = v\<close> being \<open>AList.update k v d\<close>. A dict is true when it is not empty.
\<close>

type_synonym py_dict = "(string \<times> string) list"

definition new_interface :: "string \<Rightarrow> py_dict" where
  "new_interface name =
     [(''Interface'', name), (''Name'', []), (''Security Level'', []), (''IP Address'', []),
      (''Subnet Mask'', []), (''Standby IP'', []), (''VLAN'', [])]"

text \<open>\<open>current[key] = line.split()[i]\<close>\<close>

definition set_from_token :: "py_dict \<Rightarrow> string \<Rightarrow> string list \<Rightarrow> nat \<Rightarrow> error + py_dict" where
  "set_from_token current key parts i =
     (case py_index parts i of Inl e \<Rightarrow> Inl e | Inr v \<Rightarrow> Inr (AList.update key v current))"

text \<open>The branch for \<open>ip address\<close> lines.\<close>

definition set_ip_address :: "py_dict \<Rightarrow> string \<Rightarrow> error + py_dict" where
  "set_ip_address current line =
     (let parts = py_split line in
      case set_from_token current ''IP Address'' parts 2 of
        Inl e \<Rightarrow> Inl e
      | Inr c1 \<Rightarrow>
         (case set_from_token c1 ''Subnet Mask'' parts 3 of
            Inl e \<Rightarrow> Inl e
          | Inr c2 \<Rightarrow>
             if py_contains ''standby'' line then
               (case py_index_neg parts 1 of
                  Inl e \<Rightarrow> Inl e
                | Inr v \<Rightarrow> Inr (AList.update ''Standby IP'' v c2))
             else Inr c2))"

text \<open>
  One iteration of the loop of \<open>parse_interfaces\<close>, on the pair of \<open>interfaces\<close> and
  \<open>current\<close>.
\<close>

definition iface_step ::
  "py_dict list \<times> py_dict \<Rightarrow> string \<Rightarrow> error + py_dict list \<times> py_dict" where
  "iface_step st line0 =
     (case st of (interfaces, current) \<Rightarrow>
        let line = py_strip line0 in
        if prefix ''interface '' line then
          (case py_index (py_split line) 1 of
             Inl e \<Rightarrow> Inl e
           | Inr name \<Rightarrow>
               Inr (if current \<noteq> [] then interfaces @ [current] else interfaces,
                    new_interface name))
        else if prefix ''nameif'' line then
          (case set_from_token current ''Name'' (py_split line) 1 of
             Inl e \<Rightarrow> Inl e | Inr c \<Rightarrow> Inr (interfaces, c))
        else if prefix ''security-level'' line then
          (case set_from_token current ''Security Level'' (py_split line) 1 of
             Inl e \<Rightarrow> Inl e | Inr c \<Rightarrow> Inr (interfaces, c))
        else if prefix ''ip address'' line then
          (case set_ip_address current line of
             Inl e \<Rightarrow> Inl e | Inr c \<Rightarrow> Inr (interfaces, c))
        else if prefix ''vlan'' line then
          (case set_from_token current ''VLAN'' (py_split line) 1 of
             Inl e \<Rightarrow> Inl e | Inr c \<Rightarrow> Inr (interfaces, c))
        else if line = ''!'' \<and> current \<noteq> [] then Inr (interfaces @ [current], [])
        else Inr (interfaces, current))"

fun iface_loop ::
  "py_dict list \<times> py_dict \<Rightarrow> string list \<Rightarrow> error + py_dict list \<times> py_dict" where
  "iface_loop st [] = Inr st"
| "iface_loop st (line # rest) =
     (case iface_step st line of Inl e \<Rightarrow> Inl e | Inr st' \<Rightarrow> iface_loop st' rest)"

definition parse_interfaces :: "string list \<Rightarrow> error + py_dict list" where
  "parse_interfaces config_lines =
     (case iface_loop ([], []) config_lines of
        Inl e \<Rightarrow> Inl e
      | Inr (interfaces, current) \<Rightarrow>
          Inr (if current \<noteq> [] then interfaces @ [current] else interfaces))"

subsection \<open>Well-formed interface blocks\<close>

text \<open>
  An interface block is a declaration line, body lines and a terminator line. A body
  line is any line that is neither a declaration nor a terminator and that, when it
  begins with one of the field keywords, has the tokens that its branch reads.
\<close>

definition is_header :: "string \<Rightarrow> bool" where
  "is_header line = prefix ''interface '' (py_strip line)"

definition is_terminator :: "string \<Rightarrow> bool" where
  "is_terminator line = (py_strip line = ''!'')"

definition field_line_ok :: "string \<Rightarrow> bool" where
  "field_line_ok line =
     (let s = py_strip line in
      if prefix ''nameif'' s \<or> prefix ''security-level'' s \<or> prefix ''vlan'' s
        then 2 \<le> length (py_split s)
      else if prefix ''ip address'' s then 4 \<le> length (py_split s)
      else True)"

definition body_line :: "string \<Rightarrow> bool" where
  "body_line line = (\<not> is_header line \<and> \<not> is_terminator line \<and> field_line_ok line)"

type_synonym block = "string \<times> string list \<times> string"

fun valid_block :: "block \<Rightarrow> bool" where
  "valid_block (h, body, t) = (is_header h \<and> list_all body_line body \<and> is_terminator t)"

fun block_lines :: "block \<Rightarrow> string list" where
  "block_lines (h, body, t) = h # body @ [t]"

text \<open>A last block that the input ends in, with no terminator.\<close>

fun valid_open_block :: "(string \<times> string list) option \<Rightarrow> bool" where
  "valid_open_block None = True"
| "valid_open_block (Some (h, body)) = (is_header h \<and> list_all body_line body)"

fun open_block_lines :: "(string \<times> string list) option \<Rightarrow> string list" where
  "open_block_lines None = []"
| "open_block_lines (Some (h, body)) = h # body"

section \<open>ACL recognizer\<close>

record acl_record =
  acl_name :: string
  action :: string
  protocol :: string
  source_zone :: string
  source_type :: string
  source_value :: string
  source_port :: string
  destination_zone :: string
  destination_type :: string
  destination_value :: string
  destination_port :: string
  rule_id :: string
  raw :: string

text \<open>
  The body of the \<open>try\<close> block runs on the dict \<open>result\<close> and the cursor \<open>idx\<close>. It
  either runs to its end, or stops at the first out-of-range index with the dict as
  it is at that moment: the handler goes on with that dict.
\<close>

type_synonym acl_state = "acl_record \<times> nat"
type_synonym acl_outcome = "error \<times> acl_record + acl_state"

text \<open>Evaluating \<open>tokens[i]\<close> while the dict is \<open>result\<close>, and going on with the token.\<close>

definition token_at ::
  "string list \<Rightarrow> nat \<Rightarrow> acl_record \<Rightarrow> (string \<Rightarrow> acl_outcome) \<Rightarrow> acl_outcome" where
  "token_at tokens i result k =
     (case py_index tokens i of Inl e \<Rightarrow> Inl (e, result) | Inr t \<Rightarrow> k t)"

text \<open>Sequencing: what follows a faulted statement is not run.\<close>

definition then_clause :: "acl_outcome \<Rightarrow> (acl_state \<Rightarrow> acl_outcome) \<Rightarrow> acl_outcome" where
  "then_clause out k = (case out of Inl fault \<Rightarrow> Inl fault | Inr st \<Rightarrow> k st)"

text \<open>Lines 119 to 123: the three positional fields, then \<open>idx = 5\<close>.\<close>

definition read_required :: "string list \<Rightarrow> acl_record \<Rightarrow> acl_outcome" where
  "read_required tokens result =
     token_at tokens 1 result (\<lambda>t1.
       token_at tokens 3 (result\<lparr>acl_name := t1\<rparr>) (\<lambda>t3.
         token_at tokens 4 (result\<lparr>acl_name := t1, action := t3\<rparr>) (\<lambda>t4.
           Inr (result\<lparr>acl_name := t1, action := t3, protocol := t4\<rparr>, 5))))"

definition endpoint_keywords :: "string list" where
  "endpoint_keywords = [''object'', ''object-group'', ''host'']"

definition port_keywords :: "string list" where
  "port_keywords = [''eq'', ''range'', ''gt'', ''lt'', ''neq'']"

text \<open>Lines 124 to 126: the source zone; \<open>tokens[idx]\<close> is read without a bounds test.\<close>

definition source_zone_clause :: "string list \<Rightarrow> acl_state \<Rightarrow> acl_outcome" where
  "source_zone_clause tokens st =
     (case st of (result, idx) \<Rightarrow>
        token_at tokens idx result (\<lambda>t.
          if t = ''ifc''
            then token_at tokens (idx + 1) result (\<lambda>z. Inr (result\<lparr>source_zone := z\<rparr>, idx + 2))
          else Inr (result, idx)))"

text \<open>Lines 128 to 135: the source endpoint, again without a bounds test.\<close>

definition source_endpoint_clause :: "string list \<Rightarrow> acl_state \<Rightarrow> acl_outcome" where
  "source_endpoint_clause tokens st =
     (case st of (result, idx) \<Rightarrow>
        token_at tokens idx result (\<lambda>t.
          if t \<in> set endpoint_keywords
            then token_at tokens (idx + 1) (result\<lparr>source_type := t\<rparr>) (\<lambda>v.
                   Inr (result\<lparr>source_type := t, source_value := v\<rparr>, idx + 2))
          else Inr (result\<lparr>source_type := ''any'', source_value := t\<rparr>, idx + 1)))"

text \<open>
  Lines 137 to 143 and 158 to 164: a port qualifier, written to the field that
  \<open>set_port\<close> updates.
\<close>

definition port_clause ::
  "(string \<Rightarrow> acl_record \<Rightarrow> acl_record) \<Rightarrow> string list \<Rightarrow> acl_state \<Rightarrow> acl_outcome" where
  "port_clause set_port tokens st =
     (case st of (result, idx) \<Rightarrow>
        if idx < length tokens \<and> tokens ! idx \<in> set port_keywords then
          (if tokens ! idx = ''range''
             then token_at tokens (idx + 1) result (\<lambda>lo.
                    token_at tokens (idx + 2) result (\<lambda>hi.
                      Inr (set_port (lo @ ''-'' @ hi) result, idx + 3)))
           else token_at tokens (idx + 1) result (\<lambda>p. Inr (set_port p result, idx + 2)))
        else Inr (result, idx))"

definition source_port_clause :: "string list \<Rightarrow> acl_state \<Rightarrow> acl_outcome" where
  "source_port_clause = port_clause (\<lambda>v result. result\<lparr>source_port := v\<rparr>)"

definition destination_port_clause :: "string list \<Rightarrow> acl_state \<Rightarrow> acl_outcome" where
  "destination_port_clause = port_clause (\<lambda>v result. result\<lparr>destination_port := v\<rparr>)"

text \<open>Lines 145 to 147: the destination zone, behind a bounds test.\<close>

definition destination_zone_clause :: "string list \<Rightarrow> acl_state \<Rightarrow> acl_outcome" where
  "destination_zone_clause tokens st =
     (case st of (result, idx) \<Rightarrow>
        if idx < length tokens \<and> tokens ! idx = ''ifc''
          then token_at tokens (idx + 1) result (\<lambda>z.
                 Inr (result\<lparr>destination_zone := z\<rparr>, idx + 2))
        else Inr (result, idx))"

text \<open>Lines 149 to 156: the destination endpoint, read only when a token is left.\<close>

definition destination_endpoint_clause :: "string list \<Rightarrow> acl_state \<Rightarrow> acl_outcome" where
  "destination_endpoint_clause tokens st =
     (case st of (result, idx) \<Rightarrow>
        if idx < length tokens \<and> tokens ! idx \<in> set endpoint_keywords
          then token_at tokens (idx + 1) (result\<lparr>destination_type := tokens ! idx\<rparr>) (\<lambda>v.
                 Inr (result\<lparr>destination_type := tokens ! idx, destination_value := v\<rparr>, idx + 2))
        else if idx < length tokens
          then Inr (result\<lparr>destination_type := ''any'', destination_value := tokens ! idx\<rparr>,
                    idx + 1)
        else Inr (result, idx))"

text \<open>\<open>xs.index(x)\<close> when \<open>x in xs\<close>: the position of the first occurrence.\<close>

definition py_list_index :: "'a list \<Rightarrow> 'a \<Rightarrow> nat" where
  "py_list_index xs x = length (takeWhile (\<lambda>y. y \<noteq> x) xs)"

text \<open>Lines 166 to 168: the rule id, looked up in the whole token list.\<close>

definition rule_id_clause :: "string list \<Rightarrow> acl_state \<Rightarrow> acl_outcome" where
  "rule_id_clause tokens st =
     (case st of (result, idx) \<Rightarrow>
        if ''rule-id'' \<in> set tokens
          then token_at tokens (py_list_index tokens ''rule-id'' + 1) result (\<lambda>v.
                 Inr (result\<lparr>rule_id := v\<rparr>, idx))
        else Inr (result, idx))"

text \<open>The optional clauses in the order of the source, from the cursor on.\<close>

definition acl_walk :: "string list \<Rightarrow> acl_state \<Rightarrow> acl_outcome" where
  "acl_walk tokens st =
     foldl then_clause (Inr st)
       [source_zone_clause tokens, source_endpoint_clause tokens, source_port_clause tokens,
        destination_zone_clause tokens, destination_endpoint_clause tokens,
        destination_port_clause tokens, rule_id_clause tokens]"

text \<open>The whole \<open>try\<close> block.\<close>

definition acl_try :: "string list \<Rightarrow> acl_record \<Rightarrow> acl_outcome" where
  "acl_try tokens result = then_clause (read_required tokens result) (acl_walk tokens)"

definition initial_result :: "string \<Rightarrow> acl_record" where
  "initial_result line =
     \<lparr>acl_name = [], action = [], protocol = [], source_zone = [], source_type = [],
      source_value = [], source_port = [], destination_zone = [], destination_type = [],
      destination_value = [], destination_port = [], rule_id = [], raw = py_strip line\<rparr>"

text \<open>The text that the handler appends to \<open>raw\<close>.\<close>

definition parse_error_suffix :: "error \<Rightarrow> string" where
  "parse_error_suffix e = ''  # Parse error: '' @ error_message e"

text \<open>
  \<open>parse_acl_line\<close>: \<open>Inr None\<close> is the return value \<open>None\<close>, \<open>Inl\<close> an exception that
  leaves the function.
\<close>

definition parse_acl_line :: "string \<Rightarrow> error + acl_record option" where
  "parse_acl_line line =
     (let result = initial_result line; tokens = py_split (py_strip line) in
      if tokens = [] then Inr None
      else case py_index tokens 0 of
        Inl e \<Rightarrow> Inl e
      | Inr t0 \<Rightarrow>
          if t0 \<noteq> ''access-list'' then Inr None
          else (case acl_try tokens result of
                  Inl (e, r) \<Rightarrow> Inr (Some (r\<lparr>raw := raw r @ parse_error_suffix e\<rparr>))
                | Inr (r, idx) \<Rightarrow> Inr (Some r)))"

text \<open>
  One iteration of the loop of \<open>parse_acls\<close>. The test \<open>if acl\<close> passes for every
  record: a dict with thirteen keys is true.
\<close>

definition acl_step :: "acl_record list \<Rightarrow> string \<Rightarrow> error + acl_record list" where
  "acl_step parsed line =
     (if prefix ''access-list'' line \<and> py_contains ''advanced'' line then
        (case parse_acl_line line of
           Inl e \<Rightarrow> Inl e
         | Inr None \<Rightarrow> Inr parsed
         | Inr (Some acl) \<Rightarrow> Inr (parsed @ [acl]))
      else Inr parsed)"

fun acl_loop :: "acl_record list \<Rightarrow> string list \<Rightarrow> error + acl_record list" where
  "acl_loop parsed [] = Inr parsed"
| "acl_loop parsed (line # rest) =
     (case acl_step parsed line of Inl e \<Rightarrow> Inl e | Inr parsed' \<Rightarrow> acl_loop parsed' rest)"

definition parse_acls :: "string list \<Rightarrow> error + acl_record list" where
  "parse_acls config_lines = acl_loop [] config_lines"

text \<open>The dict that an outcome carries, and the fields that no optional clause writes.\<close>

definition outcome_record :: "acl_outcome \<Rightarrow> acl_record" where
  "outcome_record out = (case out of Inl (e, r) \<Rightarrow> r | Inr (r, idx) \<Rightarrow> r)"

definition keeps_fixed :: "acl_record \<Rightarrow> acl_record \<Rightarrow> bool" where
  "keeps_fixed r r' =
     (acl_name r' = acl_name r \<and> action r' = action r \<and> protocol r' = protocol r \<and> raw r' = raw r)"

section \<open>Whitespace and tokens\<close>

declare py_split.simps [simp del]
declare py_split_sep.simps [simp del]

lemma py_split_Nil_iff: "py_split s = [] \<longleftrightarrow> (\<forall>c\<in>set s. py_isspace c)"
proof (cases "dropWhile py_isspace s")
  case Nil
  have "py_split s = []" by (subst py_split.simps) (simp only: Nil list.case)
  moreover have "\<forall>c\<in>set s. py_isspace c" using Nil by (simp only: dropWhile_eq_Nil_conv)
  ultimately show ?thesis by simp
next
  case (Cons x xs)
  have "py_split s \<noteq> []" by (subst py_split.simps) (simp only: Cons list.case, simp)
  moreover have "\<not> (\<forall>c\<in>set s. py_isspace c)"
    using Cons dropWhile_eq_Nil_conv [of py_isspace s] by simp
  ultimately show ?thesis by simp
qed

lemma dropWhile_rev_keep:
  assumes "\<not> P x"
  shows "rev (dropWhile P (rev (x # xs))) = x # rev (dropWhile P (rev xs))"
  using assms by (simp add: dropWhile_append)

lemma py_strip_Cons:
  assumes "dropWhile py_isspace s = x # xs"
  shows "py_strip s = x # rev (dropWhile py_isspace (rev xs))" and "\<not> py_isspace x"
proof -
  show nx: "\<not> py_isspace x" using hd_dropWhile [of py_isspace s] assms by auto
  show "py_strip s = x # rev (dropWhile py_isspace (rev xs))"
    unfolding py_strip_def assms using nx by (rule dropWhile_rev_keep [of py_isspace x xs])
qed

lemma py_strip_hd: "py_strip s \<noteq> [] \<Longrightarrow> \<not> py_isspace (hd (py_strip s))"
proof (cases "dropWhile py_isspace s")
  case Nil
  assume "py_strip s \<noteq> []"
  moreover have "py_strip s = []" unfolding py_strip_def Nil by simp
  ultimately show ?thesis by simp
next
  case (Cons x xs)
  show ?thesis using py_strip_Cons [OF Cons] by simp
qed

lemma tokens_Nil_iff: "py_split (py_strip s) = [] \<longleftrightarrow> py_strip s = []"
proof
  assume "py_split (py_strip s) = []"
  then have "\<forall>c\<in>set (py_strip s). py_isspace c" by (simp add: py_split_Nil_iff)
  then show "py_strip s = []"
    using py_strip_hd [of s] by (cases "py_strip s") auto
next
  assume "py_strip s = []"
  then show "py_split (py_strip s) = []" by (simp add: py_split_Nil_iff)
qed

section \<open>The try block of the ACL parser\<close>

lemma keeps_fixed_refl: "keeps_fixed r r" by (simp add: keeps_fixed_def)
lemma keeps_fixed_trans: "keeps_fixed a b \<Longrightarrow> keeps_fixed b c \<Longrightarrow> keeps_fixed a c"
  by (simp add: keeps_fixed_def)

lemma source_zone_keeps: "keeps_fixed r (outcome_record (source_zone_clause tokens (r, i)))"
  by (simp add: source_zone_clause_def token_at_def py_index_def outcome_record_def keeps_fixed_def)

lemma source_endpoint_keeps: "keeps_fixed r (outcome_record (source_endpoint_clause tokens (r, i)))"
  by (simp add: source_endpoint_clause_def token_at_def py_index_def outcome_record_def keeps_fixed_def)

lemma port_keeps:
  assumes "\<And>v r. keeps_fixed r (set_port v r)"
  shows "keeps_fixed r (outcome_record (port_clause set_port tokens (r, i)))"
  using assms by (simp add: port_clause_def token_at_def py_index_def outcome_record_def keeps_fixed_refl)

lemma source_port_keeps: "keeps_fixed r (outcome_record (source_port_clause tokens (r, i)))"
  unfolding source_port_clause_def by (rule port_keeps) (simp add: keeps_fixed_def)

lemma destination_port_keeps: "keeps_fixed r (outcome_record (destination_port_clause tokens (r, i)))"
  unfolding destination_port_clause_def by (rule port_keeps) (simp add: keeps_fixed_def)

lemma destination_zone_keeps: "keeps_fixed r (outcome_record (destination_zone_clause tokens (r, i)))"
  by (simp add: destination_zone_clause_def token_at_def py_index_def outcome_record_def keeps_fixed_def)

lemma destination_endpoint_keeps: "keeps_fixed r (outcome_record (destination_endpoint_clause tokens (r, i)))"
  by (simp add: destination_endpoint_clause_def token_at_def py_index_def outcome_record_def keeps_fixed_def)

lemma rule_id_keeps: "keeps_fixed r (outcome_record (rule_id_clause tokens (r, i)))"
  by (simp add: rule_id_clause_def token_at_def py_index_def outcome_record_def keeps_fixed_def)

lemma foldl_then_keeps:
  assumes "\<And>c r i. c \<in> set cs \<Longrightarrow> keeps_fixed r (outcome_record (c (r, i)))"
  shows "keeps_fixed (outcome_record out) (outcome_record (foldl then_clause out cs))"
  using assms
proof (induction cs arbitrary: out)
  case Nil
  show ?case by (simp add: keeps_fixed_refl)
next
  case (Cons c cs)
  have step: "keeps_fixed (outcome_record out) (outcome_record (then_clause out c))"
  proof (cases out)
    case (Inl f)
    then show ?thesis by (simp add: then_clause_def keeps_fixed_refl)
  next
    case (Inr st)
    then show ?thesis
      using Cons.prems [of c "fst st" "snd st"] by (cases st) (simp add: then_clause_def outcome_record_def)
  qed
  have "keeps_fixed (outcome_record (then_clause out c))
          (outcome_record (foldl then_clause (then_clause out c) cs))"
    by (rule Cons.IH) (simp add: Cons.prems)
  with step show ?case by (auto intro: keeps_fixed_trans)
qed

lemma acl_walk_keeps: "keeps_fixed r (outcome_record (acl_walk tokens (r, i)))"
proof -
  have "keeps_fixed (outcome_record (Inr (r, i))) (outcome_record (acl_walk tokens (r, i)))"
    unfolding acl_walk_def
    by (rule foldl_then_keeps)
       (auto simp: source_zone_keeps source_endpoint_keeps source_port_keeps
          destination_zone_keeps destination_endpoint_keeps destination_port_keeps rule_id_keeps)
  then show ?thesis by (simp add: outcome_record_def)
qed

lemma read_required_raw: "raw (outcome_record (read_required tokens r)) = raw r"
  by (simp add: read_required_def token_at_def py_index_def outcome_record_def)

lemma acl_try_raw: "raw (outcome_record (acl_try tokens r)) = raw r"
proof (cases "read_required tokens r")
  case (Inl f)
  then show ?thesis using read_required_raw [of tokens r] by (simp add: acl_try_def then_clause_def)
next
  case (Inr st)
  then show ?thesis
    using read_required_raw [of tokens r] acl_walk_keeps [of "fst st" tokens "snd st"]
    by (cases st) (simp add: acl_try_def then_clause_def outcome_record_def keeps_fixed_def)
qed

lemma parse_acl_line_cases:
  "parse_acl_line line =
     (if py_strip line = [] \<or> hd (py_split (py_strip line)) \<noteq> ''access-list'' then Inr None
      else Inr (Some (case acl_try (py_split (py_strip line)) (initial_result line) of
                        Inl (e, r) \<Rightarrow> r\<lparr>raw := raw r @ parse_error_suffix e\<rparr>
                      | Inr (r, idx) \<Rightarrow> r)))"
  by (auto simp: parse_acl_line_def Let_def py_index_def tokens_Nil_iff hd_conv_nth
           split: sum.splits prod.splits)

lemma acl_step_shape: "\<exists>d. \<forall>parsed. acl_step parsed line = Inr (parsed @ d)"
proof (cases "prefix ''access-list'' line \<and> py_contains ''advanced'' line")
  case False
  then have "\<forall>parsed. acl_step parsed line = Inr (parsed @ [])" by (auto simp: acl_step_def)
  then show ?thesis by blast
next
  case True
  show ?thesis
  proof (cases "py_strip line = [] \<or> hd (py_split (py_strip line)) \<noteq> ''access-list''")
    case True
    then have "parse_acl_line line = Inr None" by (simp add: parse_acl_line_cases)
    then have "\<forall>parsed. acl_step parsed line = Inr (parsed @ [])" by (simp add: acl_step_def)
    then show ?thesis by blast
  next
    case False
    then obtain a where "parse_acl_line line = Inr (Some a)" by (simp add: parse_acl_line_cases)
    then have "\<forall>parsed. acl_step parsed line = Inr (parsed @ [a])"
      using \<open>prefix ''access-list'' line \<and> py_contains ''advanced'' line\<close>
      by (simp add: acl_step_def)
    then show ?thesis by blast
  qed
qed

lemma acl_loop_acc:
  "\<exists>rs. acl_loop [] ls = Inr rs \<and> (\<forall>parsed. acl_loop parsed ls = Inr (parsed @ rs))"
proof (induction ls)
  case Nil
  show ?case by simp
next
  case (Cons l ls)
  obtain d where d: "\<forall>parsed. acl_step parsed l = Inr (parsed @ d)"
    using acl_step_shape by blast
  obtain rs where rs: "acl_loop [] ls = Inr rs" "\<forall>parsed. acl_loop parsed ls = Inr (parsed @ rs)"
    using Cons.IH by blast
  have "acl_loop [] (l # ls) = Inr (d @ rs)" using d rs by simp
  moreover have "\<forall>parsed. acl_loop parsed (l # ls) = Inr (parsed @ (d @ rs))"
    using d rs by simp
  ultimately show ?case by blast
qed

lemma parse_acls_single:
  assumes "prefix ''access-list'' line" and "py_contains ''advanced'' line"
    and "parse_acl_line line = Inr (Some a)"
  shows "parse_acls [line] = Inr [a]"
    and "\<exists>rs. parse_acls rest = Inr rs \<and> parse_acls (line # rest) = Inr (a # rs)"
proof -
  have step: "acl_step [] line = Inr [a]" using assms by (simp add: acl_step_def)
  then show "parse_acls [line] = Inr [a]" by (simp add: parse_acls_def)
  obtain rs where rs: "acl_loop [] rest = Inr rs" "\<forall>parsed. acl_loop parsed rest = Inr (parsed @ rs)"
    using acl_loop_acc by blast
  then have "parse_acls rest = Inr rs \<and> parse_acls (line # rest) = Inr (a # rs)"
    using step by (simp add: parse_acls_def)
  then show "\<exists>rs. parse_acls rest = Inr rs \<and> parse_acls (line # rest) = Inr (a # rs)" by blast
qed

section \<open>The object-NAT loop\<close>

lemma py_split_sep_nonempty: "py_split_sep sep acc s \<noteq> []"
proof (induction sep acc s rule: py_split_sep.induct)
  case (1 sep acc s)
  show ?case
  proof (cases "sep \<noteq> [] \<and> prefix sep s")
    case True
    then show ?thesis by (subst py_split_sep.simps) simp
  next
    case False
    show ?thesis
    proof (cases s)
      case Nil
      then show ?thesis using False by (subst py_split_sep.simps) auto
    next
      case (Cons c cs)
      then have "py_split_sep sep (c # acc) cs \<noteq> []" using "1.IH"(2) False by blast
      then show ?thesis using False Cons by (subst py_split_sep.simps) auto
    qed
  qed
qed

lemma declared_object_returns:
  assumes "prefix ''object network'' line"
  shows "\<exists>name. declared_object line = Inr name"
proof -
  have "py_split_sep ''object network'' [] line =
          [] # py_split_sep ''object network'' [] (drop (length ''object network'') line)"
    using assms by (subst py_split_sep.simps) simp
  then have "1 < length (py_split_sep ''object network'' [] line)"
    using py_split_sep_nonempty [of "''object network''" "[]" "drop (length ''object network'') line"]
    by (simp add: Suc_lessI)
  then show ?thesis by (simp add: declared_object_def py_index_def)
qed

lemma nat_not_object: "prefix ''nat ('' s \<Longrightarrow> \<not> prefix ''object network'' s"
  by (auto simp: prefix_def)

lemma nat_match_prefix: "nat_match s = Some g \<Longrightarrow> prefix ''nat ('' s"
  by (simp add: nat_match_def split: if_splits)

lemma nat_step_neutral: "neutral_line l \<Longrightarrow> nat_step st l = Inr st"
  by (cases st) (simp add: nat_step_def neutral_line_def)

lemma nat_loop_neutral: "list_all neutral_line ls \<Longrightarrow> nat_loop st ls = Inr st"
  by (induction ls) (simp_all add: nat_step_neutral)

lemma nat_loop_append:
  "nat_loop st (xs @ ys) =
     (case nat_loop st xs of Inl e \<Rightarrow> Inl e | Inr st' \<Rightarrow> nat_loop st' ys)"
  by (induction xs arbitrary: st) (simp_all split: sum.splits)

lemma nat_loop_neutral_then:
  "list_all neutral_line xs \<Longrightarrow> nat_loop st (xs @ ys) = nat_loop st ys"
  by (simp add: nat_loop_append nat_loop_neutral)

lemma nat_step_idle: "not_object_line l \<Longrightarrow> nat_step (es, None) l = Inr (es, None)"
  by (simp add: nat_step_def not_object_line_def)

lemma nat_loop_idle: "list_all not_object_line ls \<Longrightarrow> nat_loop (es, None) ls = Inr (es, None)"
  by (induction ls) (simp_all add: nat_step_idle)

lemma nat_loop_idle_then:
  "list_all not_object_line xs \<Longrightarrow> nat_loop (es, None) (xs @ ys) = nat_loop (es, None) ys"
  by (simp add: nat_loop_append nat_loop_idle)

lemma nat_step_object:
  assumes "prefix ''object network'' (py_strip l)" and "declared_object (py_strip l) = Inr nm"
  shows "nat_step (es, cur) l = Inr (es, Some nm)"
  using assms by (simp add: nat_step_def)

lemma nat_step_static:
  assumes "nat_match (py_strip l) = Some (s, d, t)" and "nm \<noteq> []"
  shows "nat_step (es, Some nm) l =
           Inr (es @ [\<lparr>object_name = nm, source_interface = s, destination_interface = d,
                        nat_type = ''static'', translated_object = t, nat_raw = py_strip l\<rparr>], None)"
  using assms nat_match_prefix [OF assms(1)] nat_not_object [of "py_strip l"]
  by (simp add: nat_step_def)

lemma nat_step_no_object:
  assumes "prefix ''nat ('' (py_strip l)"
  shows "nat_step (es, None) l = Inr (es, None)"
  using assms nat_not_object [of "py_strip l"] by (simp add: nat_step_def)


lemma nat_loop_one_shot:
  assumes "list_all not_object_line pre" and "list_all neutral_line mid"
    and "list_all not_object_line mid2" and "list_all not_object_line post"
    and "prefix ''object network'' (py_strip obj)" and "declared_object (py_strip obj) = Inr nm"
    and "nm \<noteq> []"
    and "nat_match (py_strip l1) = Some (s1, d1, t1)"
    and "nat_match (py_strip l2) = Some (s2, d2, t2)"
  shows "parse_object_nat (pre @ [obj] @ mid @ [l1] @ post) =
           Inr [\<lparr>object_name = nm, source_interface = s1, destination_interface = d1,
                 nat_type = ''static'', translated_object = t1, nat_raw = py_strip l1\<rparr>]"
    and "parse_object_nat (pre @ [obj] @ mid @ [l1] @ mid2 @ [l2] @ post) =
           Inr [\<lparr>object_name = nm, source_interface = s1, destination_interface = d1,
                 nat_type = ''static'', translated_object = t1, nat_raw = py_strip l1\<rparr>]"
proof -
  have p2: "prefix ''nat ('' (py_strip l2)" using assms(9) by (rule nat_match_prefix)
  show "parse_object_nat (pre @ [obj] @ mid @ [l1] @ post) =
           Inr [\<lparr>object_name = nm, source_interface = s1, destination_interface = d1,
                 nat_type = ''static'', translated_object = t1, nat_raw = py_strip l1\<rparr>]"
    using assms(1,2,4)
    by (simp add: parse_object_nat_def nat_loop_neutral_then nat_loop_idle_then nat_loop_idle
          nat_step_object [OF assms(5,6)] nat_step_static [OF assms(8,7)])
  show "parse_object_nat (pre @ [obj] @ mid @ [l1] @ mid2 @ [l2] @ post) =
           Inr [\<lparr>object_name = nm, source_interface = s1, destination_interface = d1,
                 nat_type = ''static'', translated_object = t1, nat_raw = py_strip l1\<rparr>]"
    using assms(1,2,3,4)
    by (simp add: parse_object_nat_def nat_loop_neutral_then nat_loop_idle_then nat_loop_idle
          nat_step_object [OF assms(5,6)] nat_step_static [OF assms(8,7)]
          nat_step_no_object [OF p2])
qed

text \<open>The object-NAT and the ACL recognizer return for every input.\<close>

lemma nat_step_returns: "\<exists>st'. nat_step st l = Inr st'"
proof (cases "prefix ''object network'' (py_strip l)")
  case True
  then obtain name where "declared_object (py_strip l) = Inr name"
    using declared_object_returns by blast
  then show ?thesis using True by (cases st) (simp add: nat_step_def)
next
  case False
  then show ?thesis
    by (cases st) (auto simp: nat_step_def Let_def split: option.splits prod.splits)
qed

lemma nat_loop_returns: "\<exists>st'. nat_loop st ls = Inr st'"
proof (induction ls arbitrary: st)
  case Nil
  show ?case by simp
next
  case (Cons l ls)
  obtain st1 where "nat_step st l = Inr st1" using nat_step_returns by blast
  then show ?case using Cons.IH [of st1] by simp
qed

lemma parse_object_nat_returns: "\<exists>rs. parse_object_nat ls = Inr rs"
proof -
  obtain st where "nat_loop ([], None) ls = Inr st" using nat_loop_returns by blast
  then show ?thesis by (cases st) (simp add: parse_object_nat_def)
qed

lemma parse_acls_returns: "\<exists>rs. parse_acls ls = Inr rs"
  using acl_loop_acc [of ls] by (auto simp: parse_acls_def)

section \<open>The interface loop on well-formed blocks\<close>

lemma py_strip_last: "py_strip s \<noteq> [] \<Longrightarrow> \<not> py_isspace (last (py_strip s))"
proof -
  assume ne: "py_strip s \<noteq> []"
  let ?e = "dropWhile py_isspace (rev (dropWhile py_isspace s))"
  have e: "?e \<noteq> []" using ne unfolding py_strip_def by simp
  then have "\<not> py_isspace (hd ?e)" by (rule hd_dropWhile)
  moreover have "last (py_strip s) = hd ?e" unfolding py_strip_def using e by (simp only: last_rev)
  ultimately show ?thesis by simp
qed

lemma header_tokens:
  assumes "is_header l"
  shows "2 \<le> length (py_split (py_strip l))"
proof -
  obtain rest where s: "py_strip l = ''interface '' @ rest"
    using assms by (auto simp: is_header_def prefix_def)
  have ne: "py_strip l \<noteq> []" using s by simp
  have nl: "\<not> py_isspace (last (py_strip l))" using ne by (rule py_strip_last)
  have rest: "rest \<noteq> []"
  proof
    assume "rest = []"
    then have "last (py_strip l) = CHR '' ''" using s by simp
    then show False using nl by (simp add: py_isspace_def)
  qed
  then have "last (py_strip l) = last rest" using s by simp
  then have "\<not> py_isspace (last rest)" using nl by simp
  then have "\<not> (\<forall>c\<in>set (CHR '' '' # rest). py_isspace c)"
    using rest last_in_set [of rest] by auto
  then have tail: "py_split (CHR '' '' # rest) \<noteq> []" by (simp only: py_split_Nil_iff not_False_eq_True)
  have "py_split (py_strip l) = ''interface'' # py_split (CHR '' '' # rest)"
    unfolding s by (subst py_split.simps) (simp add: py_isspace_def nonspace_def)
  then show ?thesis using tail by (cases "py_split (CHR '' '' # rest)") simp_all
qed

lemma iface_step_header:
  assumes "is_header l"
  shows "\<exists>name. iface_step (ifs, []) l = Inr (ifs, new_interface name)"
  using assms header_tokens [OF assms]
  by (auto simp: iface_step_def is_header_def py_index_def)

lemma header_not_terminator: "is_header l \<Longrightarrow> \<not> is_terminator l"
  by (auto simp: is_header_def is_terminator_def)

lemma iface_step_terminator:
  assumes "is_terminator l" and "current \<noteq> []"
  shows "iface_step (ifs, current) l = Inr (ifs @ [current], [])"
  using assms by (simp add: iface_step_def is_terminator_def)

lemma ip_address_exclusive:
  assumes "prefix ''ip address'' s"
  shows "\<not> prefix ''nameif'' s" and "\<not> prefix ''security-level'' s" and "\<not> prefix ''vlan'' s"
  using assms by (auto simp: prefix_def)

lemma iface_step_body:
  assumes "body_line l" and "current \<noteq> []"
  shows "\<exists>c. c \<noteq> [] \<and> iface_step (ifs, current) l = Inr (ifs, c)"
  using assms
  by (auto simp: ip_address_exclusive iface_step_def body_line_def is_header_def is_terminator_def field_line_ok_def
        Let_def set_from_token_def set_ip_address_def py_index_def py_index_neg_def
        split: if_splits)

lemma iface_loop_body:
  assumes "list_all body_line body" and "current \<noteq> []"
  shows "\<exists>c. c \<noteq> [] \<and> iface_loop (ifs, current) body = Inr (ifs, c)"
  using assms
proof (induction body arbitrary: current)
  case Nil
  then show ?case by simp
next
  case (Cons l body)
  obtain c where c: "c \<noteq> []" "iface_step (ifs, current) l = Inr (ifs, c)"
    using iface_step_body [of l current ifs] Cons.prems by auto
  obtain c' where "c' \<noteq> []" "iface_loop (ifs, c) body = Inr (ifs, c')"
    using Cons.IH [of c] Cons.prems c(1) by auto
  then show ?case using c(2) by auto
qed

lemma iface_loop_append:
  "iface_loop st (xs @ ys) =
     (case iface_loop st xs of Inl e \<Rightarrow> Inl e | Inr st' \<Rightarrow> iface_loop st' ys)"
  by (induction xs arbitrary: st) (simp_all split: sum.splits)

lemma iface_loop_open_block:
  assumes "is_header h" and "list_all body_line body"
  shows "\<exists>c. c \<noteq> [] \<and> iface_loop (ifs, []) (h # body) = Inr (ifs, c)"
proof -
  obtain name where n: "iface_step (ifs, []) h = Inr (ifs, new_interface name)"
    using iface_step_header [OF assms(1)] by blast
  have "new_interface name \<noteq> []" by (simp add: new_interface_def)
  then obtain c where "c \<noteq> []" "iface_loop (ifs, new_interface name) body = Inr (ifs, c)"
    using iface_loop_body [OF assms(2)] by blast
  then show ?thesis using n by auto
qed

lemma iface_loop_block:
  assumes "valid_block b"
  shows "\<exists>r. iface_loop (ifs, []) (block_lines b) = Inr (ifs @ [r], [])"
proof -
  obtain h body t where b: "b = (h, body, t)" by (cases b) auto
  have v: "is_header h" "list_all body_line body" "is_terminator t" using assms b by auto
  obtain c where c: "c \<noteq> []" "iface_loop (ifs, []) (h # body) = Inr (ifs, c)"
    using iface_loop_open_block [OF v(1,2)] by blast
  have "iface_loop (ifs, []) ((h # body) @ [t]) = Inr (ifs @ [c], [])"
    using c iface_step_terminator [OF v(3) c(1)] by (simp only: iface_loop_append) simp
  then show ?thesis using b by auto
qed

lemma iface_loop_blocks:
  assumes "list_all valid_block blocks"
  shows "\<exists>rs. length rs = length blocks \<and>
           iface_loop (ifs, []) (concat (map block_lines blocks)) = Inr (ifs @ rs, [])"
  using assms
proof (induction blocks arbitrary: ifs)
  case Nil
  then show ?case by simp
next
  case (Cons b blocks)
  obtain r where r: "iface_loop (ifs, []) (block_lines b) = Inr (ifs @ [r], [])"
    using iface_loop_block [of b ifs] Cons.prems by auto
  obtain rs where rs: "length rs = length blocks"
      "iface_loop (ifs @ [r], []) (concat (map block_lines blocks)) = Inr ((ifs @ [r]) @ rs, [])"
    using Cons.IH [of "ifs @ [r]"] Cons.prems by auto
  have "iface_loop (ifs, []) (concat (map block_lines (b # blocks))) = Inr (ifs @ (r # rs), [])"
    using r rs(2) by (simp add: iface_loop_append)
  moreover have "length (r # rs) = length (b # blocks)" using rs(1) by simp
  ultimately show ?case by blast
qed

lemma terminators_of_block:
  assumes "valid_block b"
  shows "length (filter is_terminator (block_lines b)) = 1"
proof -
  obtain h body t where b: "b = (h, body, t)" by (cases b) auto
  have v: "is_header h" "list_all body_line body" "is_terminator t" using assms b by auto
  have "filter is_terminator body = []"
    using v(2) by (induction body) (auto simp: body_line_def)
  then show ?thesis using b v(3) header_not_terminator [OF v(1)] by simp
qed

lemma terminators_of_blocks:
  assumes "list_all valid_block blocks"
  shows "length (filter is_terminator (concat (map block_lines blocks))) = length blocks"
  using assms
proof (induction blocks)
  case Nil
  then show ?case by simp
next
  case (Cons b blocks)
  then show ?case using terminators_of_block [of b] by simp
qed

lemma terminators_of_open_block:
  assumes "valid_open_block ob"
  shows "filter is_terminator (open_block_lines ob) = []"
proof (cases ob)
  case None
  then show ?thesis by simp
next
  case (Some p)
  obtain h body where p: "p = (h, body)" by (cases p) auto
  have v: "is_header h" "list_all body_line body" using assms Some p by auto
  have "filter is_terminator body = []"
    using v(2) by (induction body) (auto simp: body_line_def)
  then show ?thesis using Some p header_not_terminator [OF v(1)] by simp
qed

section \<open>Results\<close>

text \<open>
  C9: the route recognizer maps \<open>route outside 10.0.0.0 255.0.0.0 192.168.1.1 1\<close> to
  the record with interface \<open>outside\<close>, destination \<open>10.0.0.0\<close>, netmask \<open>255.0.0.0\<close>,
  gateway \<open>192.168.1.1\<close> and metric \<open>1\<close>, and the same line without the trailing
  \<open>1\<close> to the same record with the empty string as metric.
\<close>

theorem parse_routes_example:
  "parse_routes [''route outside 10.0.0.0 255.0.0.0 192.168.1.1 1''] =
     [\<lparr>interface = ''outside'', destination = ''10.0.0.0'', netmask = ''255.0.0.0'',
       gateway = ''192.168.1.1'', metric = ''1''\<rparr>]
   \<and> parse_routes [''route outside 10.0.0.0 255.0.0.0 192.168.1.1''] =
     [\<lparr>interface = ''outside'', destination = ''10.0.0.0'', netmask = ''255.0.0.0'',
       gateway = ''192.168.1.1'', metric = ''''\<rparr>]"
  by code_simp

text \<open>
  C1, as the code has it, for a line with fewer than five tokens. When the line
  passes the filter of \<open>parse_acls\<close> (it begins, unstripped, with \<open>access-list\<close> and
  contains \<open>advanced\<close>) and its first token is exactly \<open>access-list\<close>, the
  recognizer yields one record for it: the first required read that runs out of
  tokens faults inside the \<open>try\<close> block, and the record holds the required fields
  read so far (the name when there are two tokens, the action when there are four),
  every other field empty, and \<open>raw\<close> equal to the stripped line followed by the
  diagnostic. In every other case the recognizer yields no record for the line.
  \<open>parse_acl_line\<close> itself returns that record for every such line whose first
  token is \<open>access-list\<close>.
\<close>

theorem short_acl_line_is_annotated:
  assumes "tokens = py_split (py_strip line)" and "length tokens < 5"
  shows "let annotated =
               (initial_result line)
                 \<lparr>acl_name := (if 1 < length tokens then tokens ! 1 else []),
                  action := (if 3 < length tokens then tokens ! 3 else []),
                  raw := py_strip line @ ''  # Parse error: list index out of range''\<rparr>
         in (take 1 tokens = [''access-list''] \<longrightarrow>
               parse_acl_line line = Inr (Some annotated))
          \<and> parse_acls [line] =
              (if prefix ''access-list'' line \<and> py_contains ''advanced'' line
                  \<and> take 1 tokens = [''access-list'']
               then Inr [annotated] else Inr [])"
proof -
  let ?annotated = "(initial_result line)
                 \<lparr>acl_name := (if 1 < length tokens then tokens ! 1 else []),
                  action := (if 3 < length tokens then tokens ! 3 else []),
                  raw := py_strip line @ ''  # Parse error: list index out of range''\<rparr>"
  let ?filter = "prefix ''access-list'' line \<and> py_contains ''advanced'' line"
  have first_iff: "take 1 tokens = [''access-list''] \<longleftrightarrow>
                     tokens \<noteq> [] \<and> hd tokens = ''access-list''"
    by (cases tokens) auto
  have raw0: "raw (initial_result line) = py_strip line" by (simp add: initial_result_def)
  have faulted: "acl_try tokens (initial_result line) =
          Inl (IndexError, (initial_result line)
                 \<lparr>acl_name := (if 1 < length tokens then tokens ! 1 else []),
                  action := (if 3 < length tokens then tokens ! 3 else [])\<rparr>)"
    using assms(2)
    by (simp add: acl_try_def then_clause_def read_required_def token_at_def py_index_def
                  initial_result_def)
  have one: "parse_acl_line line = Inr (Some ?annotated)"
    if "take 1 tokens = [''access-list'']"
  proof -
    have ne: "py_strip line \<noteq> []" using that assms(1) first_iff by (auto simp: tokens_Nil_iff)
    have hd: "hd (py_split (py_strip line)) = ''access-list''"
      using that assms(1) first_iff by simp
    show ?thesis
      using faulted ne hd assms(1) raw0
      by (simp add: parse_acl_line_cases parse_error_suffix_def)
  qed
  have none: "parse_acl_line line = Inr None"
    if "take 1 tokens \<noteq> [''access-list'']"
  proof -
    have "py_strip line = [] \<or> hd (py_split (py_strip line)) \<noteq> ''access-list''"
      using that assms(1) first_iff by (auto simp: tokens_Nil_iff)
    then show ?thesis by (simp add: parse_acl_line_cases)
  qed
  have acls: "parse_acls [line] =
              (if ?filter \<and> take 1 tokens = [''access-list'']
               then Inr [?annotated] else Inr [])"
  proof (cases ?filter)
    case False
    then have "acl_step [] line = Inr []" by (auto simp: acl_step_def)
    then show ?thesis using False by (auto simp: parse_acls_def)
  next
    case True
    show ?thesis
    proof (cases "take 1 tokens = [''access-list'']")
      case t: True
      have "parse_acls [line] = Inr [?annotated]"
        using True parse_acls_single(1) [OF _ _ one [OF t]] by blast
      then show ?thesis using True t by simp
    next
      case f: False
      have "acl_step [] line = Inr []" using True none [OF f] by (simp add: acl_step_def)
      then show ?thesis using f by (simp add: parse_acls_def)
    qed
  qed
  show ?thesis
    unfolding Let_def
  proof (intro conjI impI)
    assume "take 1 tokens = [''access-list'']"
    then show "parse_acl_line line = Inr (Some ?annotated)" by (rule one)
  next
    show "parse_acls [line] =
            (if prefix ''access-list'' line \<and> py_contains ''advanced'' line
                \<and> take 1 tokens = [''access-list'']
             then Inr [?annotated] else Inr [])"
      using acls by (simp only: conj_assoc)
  qed
qed

text \<open>
  C1, witness: the three-token line \<open>access-list X advanced\<close>, which is kept, and
  two lines that fail the filter, one without \<open>advanced\<close> and one with a leading
  space.
\<close>

theorem short_acl_line_is_annotated_witness:
  "parse_acls [''access-list X advanced''] =
       Inr [(initial_result ''access-list X advanced'')
              \<lparr>acl_name := ''X'', action := [],
               raw := ''access-list X advanced  # Parse error: list index out of range''\<rparr>]
   \<and> parse_acls [''access-list X extended''] = Inr []
   \<and> parse_acls ['' access-list X advanced''] = Inr []"
proof -
  let ?l = "''access-list X advanced''"
  let ?ts = "[''access-list'', ''X'', ''advanced'']"
  have t: "?ts = py_split (py_strip ?l)" by code_simp
  have len: "length ?ts < 5" by simp
  have s: "py_strip ?l = ?l" by code_simp
  have p: "prefix ''access-list'' ?l" by code_simp
  have c: "py_contains ''advanced'' ?l" by code_simp
  have a: "parse_acls [?l] =
       Inr [(initial_result ?l)
              \<lparr>acl_name := ''X'', action := [],
               raw := ''access-list X advanced  # Parse error: list index out of range''\<rparr>]"
    using short_acl_line_is_annotated [OF t len] s p c by (simp add: Let_def)
  let ?m = "''access-list X extended''"
  let ?ms = "[''access-list'', ''X'', ''extended'']"
  have tm: "?ms = py_split (py_strip ?m)" by code_simp
  have lenm: "length ?ms < 5" by simp
  have cm: "\<not> py_contains ''advanced'' ?m" by code_simp
  have b: "parse_acls [?m] = Inr []"
    using short_acl_line_is_annotated [OF tm lenm] cm by (simp add: Let_def)
  let ?n = "'' access-list X advanced''"
  have tn: "?ts = py_split (py_strip ?n)" by code_simp
  have pn: "\<not> prefix ''access-list'' ?n" by code_simp
  have d: "parse_acls [?n] = Inr []"
    using short_acl_line_is_annotated [OF tn len] pn by (simp add: Let_def)
  show ?thesis using a b d by simp
qed

text \<open>
  C1, counterexample to the claim as stated: \<open>access-list X advanced\<close> has three
  tokens, too few for the action and the protocol, and the recognizer yields a
  partially filled record for it.
\<close>

theorem short_acl_line_counterexample:
  "length (py_split (py_strip ''access-list X advanced'')) < 5
   \<and> parse_acls [''access-list X advanced''] =
       Inr [\<lparr>acl_name = ''X'', action = [], protocol = [], source_zone = [],
             source_type = [], source_value = [], source_port = [], destination_zone = [],
             destination_type = [], destination_value = [], destination_port = [],
             rule_id = [],
             raw = ''access-list X advanced  # Parse error: list index out of range''\<rparr>]"
  by code_simp

text \<open>
  C2, the code at the failing input: on the single line \<open>nameif\<close> the interface
  recognizer raises \<open>IndexError\<close> (the read of \<open>line.split()[1]\<close>), and no record
  collection is returned.
\<close>

theorem nameif_alone_raises: "parse_interfaces [''nameif''] = Inl IndexError"
  by code_simp

text \<open>
  C3: when the three required fields of an ACL line were read (the line has at least
  five tokens, the first being \<open>access-list\<close>) and the walk over the optional clauses
  faults at an index out of range with the dict \<open>r\<close>, the line is not dropped:
  \<open>parse_acl_line\<close> returns \<open>r\<close>, which holds every field written before the fault
  and the three required fields, with the diagnostic appended to \<open>raw\<close>; and when the
  line passes the filter, \<open>parse_acls\<close> emits that record and goes on with the lines
  that follow.
\<close>

theorem acl_fault_keeps_line:
  assumes "tokens = py_split (py_strip line)"
    and "5 \<le> length tokens" and "tokens ! 0 = ''access-list''"
    and "acl_walk tokens
           ((initial_result line)
              \<lparr>acl_name := tokens ! 1, action := tokens ! 3, protocol := tokens ! 4\<rparr>, 5)
         = Inl (e, r)"
  shows "parse_acl_line line =
           Inr (Some (r\<lparr>raw := py_strip line @ ''  # Parse error: list index out of range''\<rparr>))
         \<and> acl_name r = tokens ! 1 \<and> action r = tokens ! 3 \<and> protocol r = tokens ! 4
         \<and> (prefix ''access-list'' line \<and> py_contains ''advanced'' line \<longrightarrow>
              (\<exists>rs. parse_acls rest = Inr rs \<and>
                    parse_acls (line # rest) =
                      Inr (r\<lparr>raw := py_strip line @ ''  # Parse error: list index out of range''\<rparr>
                           # rs)))"
proof -
  let ?r3 = "(initial_result line)
              \<lparr>acl_name := tokens ! 1, action := tokens ! 3, protocol := tokens ! 4\<rparr>"
  have tne: "tokens \<noteq> []" using assms(2) by auto
  have ne: "py_strip line \<noteq> []" using assms(1) tne by (auto simp: tokens_Nil_iff)
  have hd: "hd (py_split (py_strip line)) = ''access-list''"
    using assms(1,3) tne by (simp add: hd_conv_nth)
  have req: "read_required tokens (initial_result line) = Inr (?r3, 5)"
    using assms(2) by (simp add: read_required_def token_at_def py_index_def)
  have faulted: "acl_try tokens (initial_result line) = Inl (e, r)"
    using req assms(4) by (simp add: acl_try_def then_clause_def)
  have kept: "keeps_fixed ?r3 r"
    using acl_walk_keeps [of ?r3 tokens 5] assms(4) by (simp add: outcome_record_def)
  have raw_r: "raw r = py_strip line"
    using kept by (simp add: keeps_fixed_def initial_result_def)
  have one: "parse_acl_line line =
           Inr (Some (r\<lparr>raw := py_strip line @ ''  # Parse error: list index out of range''\<rparr>))"
    using ne hd assms(1) faulted raw_r
    by (cases e) (simp add: parse_acl_line_cases parse_error_suffix_def)
  have flds: "acl_name r = tokens ! 1 \<and> action r = tokens ! 3 \<and> protocol r = tokens ! 4"
    using kept by (simp add: keeps_fixed_def)
  show ?thesis using one flds parse_acls_single(2) [OF _ _ one] by blast
qed

text \<open>
  C3, witness: the object keyword with no value after it; the source type is kept,
  and the next line is parsed as usual.
\<close>

theorem acl_fault_keeps_line_witness:
  "parse_acls [''access-list A advanced permit tcp object'', ''access-list B advanced permit ip any any''] =
     Inr [\<lparr>acl_name = ''A'', action = ''permit'', protocol = ''tcp'', source_zone = [],
           source_type = ''object'', source_value = [], source_port = [], destination_zone = [],
           destination_type = [], destination_value = [], destination_port = [], rule_id = [],
           raw = ''access-list A advanced permit tcp object  # Parse error: list index out of range''\<rparr>,
          \<lparr>acl_name = ''B'', action = ''permit'', protocol = ''ip'', source_zone = [],
           source_type = ''any'', source_value = ''any'', source_port = [], destination_zone = [],
           destination_type = ''any'', destination_value = ''any'', destination_port = [], rule_id = [],
           raw = ''access-list B advanced permit ip any any''\<rparr>]"
proof -
  let ?l = "''access-list A advanced permit tcp object''"
  let ?ts = "[''access-list'', ''A'', ''advanced'', ''permit'', ''tcp'', ''object'']"
  let ?r = "\<lparr>acl_name = ''A'', action = ''permit'', protocol = ''tcp'', source_zone = [],
           source_type = ''object'', source_value = [], source_port = [], destination_zone = [],
           destination_type = [], destination_value = [], destination_port = [], rule_id = [],
           raw = ''access-list A advanced permit tcp object''\<rparr>"
  have t: "?ts = py_split (py_strip ?l)" by code_simp
  have s: "py_strip ?l = ?l" by code_simp
  have len: "5 \<le> length ?ts" by simp
  have h0: "?ts ! 0 = ''access-list''" by simp
  have w: "acl_walk ?ts
           ((initial_result ?l)\<lparr>acl_name := ?ts ! 1, action := ?ts ! 3, protocol := ?ts ! 4\<rparr>, 5)
         = Inl (IndexError, ?r)"
    by code_simp
  have p: "prefix ''access-list'' ?l" by code_simp
  have c: "py_contains ''advanced'' ?l" by code_simp
  have rest: "parse_acls [''access-list B advanced permit ip any any''] =
     Inr [\<lparr>acl_name = ''B'', action = ''permit'', protocol = ''ip'', source_zone = [],
           source_type = ''any'', source_value = ''any'', source_port = [], destination_zone = [],
           destination_type = ''any'', destination_value = ''any'', destination_port = [], rule_id = [],
           raw = ''access-list B advanced permit ip any any''\<rparr>]"
    by code_simp
  show ?thesis
    using acl_fault_keeps_line [OF t len h0 w, of "[''access-list B advanced permit ip any any'']"]
          p c s rest
    by simp
qed

text \<open>
  C5, the code at the failing input: a \<open>nameif\<close> line with no current record writes
  its name into the empty dict, which thereby becomes a record of its own, holding
  the key \<open>Name\<close> only, and is appended at the end of the input.
\<close>

theorem nameif_without_block_makes_record:
  "parse_interfaces [''nameif outside''] = Inr [[(''Name'', ''outside'')]]"
  by code_simp

text \<open>
  C8, as the code has it: \<open>parse_acl_line\<close> maps the line to a record with source
  type \<open>object\<close>, source value \<open>WEBSRV\<close>, source port \<open>443\<close>, destination type and
  value \<open>any\<close> and rule id \<open>268435456\<close>; the recognizer \<open>parse_acls\<close> yields that
  record for the same line with \<open>advanced\<close> in the place of \<open>extended\<close>.
\<close>

theorem acl_example_fields:
  "parse_acl_line ''access-list OUTSIDE_IN extended permit tcp object WEBSRV eq 443 any rule-id 268435456'' =
     Inr (Some \<lparr>acl_name = ''OUTSIDE_IN'', action = ''permit'', protocol = ''tcp'',
                source_zone = [], source_type = ''object'', source_value = ''WEBSRV'',
                source_port = ''443'', destination_zone = [], destination_type = ''any'',
                destination_value = ''any'', destination_port = [], rule_id = ''268435456'',
                raw = ''access-list OUTSIDE_IN extended permit tcp object WEBSRV eq 443 any rule-id 268435456''\<rparr>)
   \<and> parse_acls [''access-list OUTSIDE_IN advanced permit tcp object WEBSRV eq 443 any rule-id 268435456''] =
     Inr [\<lparr>acl_name = ''OUTSIDE_IN'', action = ''permit'', protocol = ''tcp'',
           source_zone = [], source_type = ''object'', source_value = ''WEBSRV'',
           source_port = ''443'', destination_zone = [], destination_type = ''any'',
           destination_value = ''any'', destination_port = [], rule_id = ''268435456'',
           raw = ''access-list OUTSIDE_IN advanced permit tcp object WEBSRV eq 443 any rule-id 268435456''\<rparr>]"
  by code_simp

text \<open>
  C8, counterexample to the claim as stated: the line does not contain \<open>advanced\<close>,
  so the recognizer \<open>parse_acls\<close> filters it out and yields no record.
\<close>

theorem acl_example_filtered_out:
  "parse_acls [''access-list OUTSIDE_IN extended permit tcp object WEBSRV eq 443 any rule-id 268435456'']
     = Inr []"
  by code_simp

text \<open>
  C10: \<open>parse_acl_line\<close> returns for every input string, it returns \<open>None\<close> exactly
  when the stripped line is empty or its first token is not \<open>access-list\<close>, and the
  \<open>raw\<close> field of a returned record starts with the stripped line. (The thirteen
  fields are those of the record type; \<open>initial_result\<close> sets all but \<open>raw\<close> to the
  empty string.)
\<close>

theorem parse_acl_line_returns:
  "(\<exists>v. parse_acl_line line = Inr v)
   \<and> (parse_acl_line line = Inr None \<longleftrightarrow>
        py_strip line = [] \<or> hd (py_split (py_strip line)) \<noteq> ''access-list'')
   \<and> (\<forall>r. parse_acl_line line = Inr (Some r) \<longrightarrow> prefix (py_strip line) (raw r))"
proof (intro conjI allI impI)
  show "\<exists>v. parse_acl_line line = Inr v"
    by (simp add: parse_acl_line_cases)
  show "parse_acl_line line = Inr None \<longleftrightarrow>
        py_strip line = [] \<or> hd (py_split (py_strip line)) \<noteq> ''access-list''"
    by (simp add: parse_acl_line_cases)
next
  fix r
  assume some: "parse_acl_line line = Inr (Some r)"
  let ?out = "acl_try (py_split (py_strip line)) (initial_result line)"
  have kept: "raw (outcome_record ?out) = py_strip line"
    by (simp add: acl_try_raw initial_result_def)
  from some have r: "r = (case ?out of
                        Inl (e, r') \<Rightarrow> r'\<lparr>raw := raw r' @ parse_error_suffix e\<rparr>
                      | Inr (r', idx) \<Rightarrow> r')"
    by (simp add: parse_acl_line_cases split: if_splits)
  show "prefix (py_strip line) (raw r)"
  proof (cases ?out)
    case (Inl f)
    then show ?thesis using kept r by (cases f) (simp add: outcome_record_def)
  next
    case (Inr st)
    then show ?thesis using kept r by (cases st) (simp add: outcome_record_def)
  qed
qed

text \<open>
  C10, witness: a line with surrounding whitespace and too few tokens.
\<close>

theorem parse_acl_line_returns_witness:
  "parse_acl_line ''  access-list X advanced '' =
     Inr (Some \<lparr>acl_name = ''X'', action = [], protocol = [], source_zone = [],
                source_type = [], source_value = [], source_port = [], destination_zone = [],
                destination_type = [], destination_value = [], destination_port = [],
                rule_id = [],
                raw = ''access-list X advanced  # Parse error: list index out of range''\<rparr>)
   \<and> py_strip ''  access-list X advanced '' = ''access-list X advanced''
   \<and> prefix ''access-list X advanced''
        ''access-list X advanced  # Parse error: list index out of range''"
proof -
  have e: "parse_acl_line ''  access-list X advanced '' =
     Inr (Some \<lparr>acl_name = ''X'', action = [], protocol = [], source_zone = [],
                source_type = [], source_value = [], source_port = [], destination_zone = [],
                destination_type = [], destination_value = [], destination_port = [],
                rule_id = [],
                raw = ''access-list X advanced  # Parse error: list index out of range''\<rparr>)"
    by code_simp
  have s: "py_strip ''  access-list X advanced '' = ''access-list X advanced''"
    by code_simp
  show ?thesis
    using parse_acl_line_returns [of "''  access-list X advanced ''"] e s by simp
qed




text \<open>
  C7, as the code has it: an input in which \<open>object network WEBSRV\<close> is followed
  later by \<open>nat (inside,outside) static WEBSRV-NAT\<close> yields exactly one record,
  pairing \<open>WEBSRV\<close> with \<open>WEBSRV-NAT\<close>; and an input with one object declaration, of
  a non-empty name, followed by two static NAT lines yields exactly one record, that
  of the first NAT line. Both hold when no other line of the input is an object
  declaration and no line between the declaration and the first static NAT line
  begins with \<open>nat (\<close>.
\<close>

theorem object_nat_one_shot:
  assumes "list_all not_object_line pre" and "list_all neutral_line mid"
    and "list_all not_object_line mid2" and "list_all not_object_line post"
    and "prefix ''object network'' (py_strip obj)" and "declared_object (py_strip obj) = Inr nm"
    and "nm \<noteq> []"
    and "nat_match (py_strip l1) = Some (s1, d1, t1)"
    and "nat_match (py_strip l2) = Some (s2, d2, t2)"
  shows "parse_object_nat
           (pre @ [''object network WEBSRV''] @ mid @
            [''nat (inside,outside) static WEBSRV-NAT''] @ post) =
           Inr [\<lparr>object_name = ''WEBSRV'', source_interface = ''inside'',
                 destination_interface = ''outside'', nat_type = ''static'',
                 translated_object = ''WEBSRV-NAT'',
                 nat_raw = ''nat (inside,outside) static WEBSRV-NAT''\<rparr>]
         \<and> parse_object_nat (pre @ [obj] @ mid @ [l1] @ mid2 @ [l2] @ post) =
           Inr [\<lparr>object_name = nm, source_interface = s1, destination_interface = d1,
                 nat_type = ''static'', translated_object = t1, nat_raw = py_strip l1\<rparr>]"
proof -
  have o1: "prefix ''object network'' (py_strip ''object network WEBSRV'')" by code_simp
  have o2: "declared_object (py_strip ''object network WEBSRV'') = Inr ''WEBSRV''" by code_simp
  have o3: "''WEBSRV'' \<noteq> []" by simp
  have n1: "nat_match (py_strip ''nat (inside,outside) static WEBSRV-NAT'') =
              Some (''inside'', ''outside'', ''WEBSRV-NAT'')" by code_simp
  have n2: "py_strip ''nat (inside,outside) static WEBSRV-NAT'' =
              ''nat (inside,outside) static WEBSRV-NAT''" by code_simp
  have first: "parse_object_nat
           (pre @ [''object network WEBSRV''] @ mid @
            [''nat (inside,outside) static WEBSRV-NAT''] @ post) =
           Inr [\<lparr>object_name = ''WEBSRV'', source_interface = ''inside'',
                 destination_interface = ''outside'', nat_type = ''static'',
                 translated_object = ''WEBSRV-NAT'',
                 nat_raw = ''nat (inside,outside) static WEBSRV-NAT''\<rparr>]"
    using nat_loop_one_shot(1) [OF assms(1,2,3,4) o1 o2 o3 n1 n1] by (simp only: n2)
  have second: "parse_object_nat (pre @ [obj] @ mid @ [l1] @ mid2 @ [l2] @ post) =
           Inr [\<lparr>object_name = nm, source_interface = s1, destination_interface = d1,
                 nat_type = ''static'', translated_object = t1, nat_raw = py_strip l1\<rparr>]"
    by (rule nat_loop_one_shot(2) [OF assms])
  show ?thesis using first second by (rule conjI)
qed

text \<open>
  C7, witness: a host line between the declaration and the NAT line, and a second
  static NAT line that yields nothing.
\<close>

theorem object_nat_one_shot_witness:
  "parse_object_nat
     [''hostname fw'', ''object network WEBSRV'', '' host 10.0.0.5'',
      ''nat (inside,outside) static WEBSRV-NAT'', ''!''] =
     Inr [\<lparr>object_name = ''WEBSRV'', source_interface = ''inside'',
           destination_interface = ''outside'', nat_type = ''static'',
           translated_object = ''WEBSRV-NAT'',
           nat_raw = ''nat (inside,outside) static WEBSRV-NAT''\<rparr>]
   \<and> parse_object_nat
     [''hostname fw'', ''object network DB'', '' host 10.0.0.5'',
      '' nat (dmz,outside) static DB-NAT'', ''nat (dmz,outside) static OTHER'', ''!''] =
     Inr [\<lparr>object_name = ''DB'', source_interface = ''dmz'',
           destination_interface = ''outside'', nat_type = ''static'',
           translated_object = ''DB-NAT'', nat_raw = ''nat (dmz,outside) static DB-NAT''\<rparr>]"
proof -
  have pre: "list_all not_object_line [''hostname fw'']" by code_simp
  have mid: "list_all neutral_line ['' host 10.0.0.5'']" by code_simp
  have mid2: "list_all not_object_line []" by simp
  have post: "list_all not_object_line [''!'']" by code_simp
  have o1: "prefix ''object network'' (py_strip ''object network DB'')" by code_simp
  have o2: "declared_object (py_strip ''object network DB'') = Inr ''DB''" by code_simp
  have o3: "''DB'' \<noteq> []" by simp
  have n1: "nat_match (py_strip '' nat (dmz,outside) static DB-NAT'') =
              Some (''dmz'', ''outside'', ''DB-NAT'')" by code_simp
  have n2: "nat_match (py_strip ''nat (dmz,outside) static OTHER'') =
              Some (''dmz'', ''outside'', ''OTHER'')" by code_simp
  have s1: "py_strip '' nat (dmz,outside) static DB-NAT'' = ''nat (dmz,outside) static DB-NAT''"
    by code_simp
  show ?thesis
    using object_nat_one_shot [OF pre mid mid2 post o1 o2 o3 n1 n2] s1 by simp
qed

text \<open>
  C7, counterexample to the claim as stated: one object declaration followed by two
  static NAT lines, with no other object declaration, yields no record when a
  \<open>nat (\<close> line that does not match the static pattern stands between the
  declaration and the first static line.
\<close>

theorem two_static_after_other_nat_counterexample:
  "nat_match ''nat (inside,outside) static B'' = Some (''inside'', ''outside'', ''B'')
   \<and> nat_match ''nat (inside,outside) static C'' = Some (''inside'', ''outside'', ''C'')
   \<and> parse_object_nat
       [''object network A'', ''nat (inside,outside) dynamic interface'',
        ''nat (inside,outside) static B'', ''nat (inside,outside) static C''] = Inr []"
  by code_simp

text \<open>
  C6: for an input made of well-formed interface blocks, each ended by the bare
  terminator line, possibly followed by a last block with no terminator, the
  interface recognizer returns, and the number of records equals the number of
  terminator lines of the input, plus one when there is such a last block.
\<close>

theorem interface_record_count:
  assumes "list_all valid_block blocks" and "valid_open_block last_block"
  shows "\<exists>rs. parse_interfaces (concat (map block_lines blocks) @ open_block_lines last_block)
                 = Inr rs
              \<and> length rs =
                  length (filter is_terminator
                            (concat (map block_lines blocks) @ open_block_lines last_block))
                  + (if last_block = None then 0 else 1)"
proof -
  obtain rs where rs: "length rs = length blocks"
      "iface_loop ([], []) (concat (map block_lines blocks)) = Inr ([] @ rs, [])"
    using iface_loop_blocks [OF assms(1), of "[]"] by blast
  have cnt: "length (filter is_terminator
                (concat (map block_lines blocks) @ open_block_lines last_block)) = length blocks"
    using terminators_of_blocks [OF assms(1)] terminators_of_open_block [OF assms(2)] by simp
  show ?thesis
  proof (cases last_block)
    case None
    have "parse_interfaces (concat (map block_lines blocks) @ open_block_lines last_block) = Inr rs"
      using rs(2) None by (simp add: parse_interfaces_def)
    then show ?thesis using rs(1) cnt None by simp
  next
    case (Some p)
    obtain h body where p: "p = (h, body)" by (cases p) auto
    have v: "is_header h" "list_all body_line body" using assms(2) Some p by auto
    obtain c where c: "c \<noteq> []" "iface_loop (rs, []) (h # body) = Inr (rs, c)"
      using iface_loop_open_block [OF v] by blast
    have "parse_interfaces (concat (map block_lines blocks) @ open_block_lines last_block)
            = Inr (rs @ [c])"
      using rs(2) c Some p by (simp add: parse_interfaces_def iface_loop_append)
    then show ?thesis using rs(1) cnt Some by simp
  qed
qed

text \<open>
  C6, witness: two terminated blocks and a third one that the input ends in.
\<close>

theorem interface_record_count_witness:
  "\<exists>rs. parse_interfaces
           [''interface GigabitEthernet0/0'', '' nameif outside'', '' security-level 0'',
            '' ip address 10.0.0.1 255.255.255.0 standby 10.0.0.2'', ''!'',
            ''interface GigabitEthernet0/1'', '' shutdown'', ''!'',
            ''interface GigabitEthernet0/2'', '' vlan 10''] = Inr rs
        \<and> length rs = 2 + 1"
proof -
  let ?blocks = "[(''interface GigabitEthernet0/0'',
                   ['' nameif outside'', '' security-level 0'',
                    '' ip address 10.0.0.1 255.255.255.0 standby 10.0.0.2''], ''!''),
                  (''interface GigabitEthernet0/1'', ['' shutdown''], ''!'')]"
  let ?last = "Some (''interface GigabitEthernet0/2'', ['' vlan 10''])"
  have v1: "list_all valid_block ?blocks" by code_simp
  have v2: "valid_open_block ?last" by code_simp
  have cnt: "length (filter is_terminator
           [''interface GigabitEthernet0/0'', '' nameif outside'', '' security-level 0'',
            '' ip address 10.0.0.1 255.255.255.0 standby 10.0.0.2'', ''!'',
            ''interface GigabitEthernet0/1'', '' shutdown'', ''!'',
            ''interface GigabitEthernet0/2'', '' vlan 10'']) = 2" by code_simp
  show ?thesis
    using interface_record_count [OF v1 v2] cnt by simp
qed

end
